theory Spec2Isabelle
  imports Complex_Main
begin

section \<open>Data model of \<^verbatim>\<open>discrepancy_detector.py\<close>\<close>

text \<open>
  The reconciliation engine of the repository is the pair of functions
  \<^verbatim>\<open>normalize_columns\<close> and \<^verbatim>\<open>find_discrepancies\<close>. Both work on pandas
  data frames. The embedding keeps what these two functions observe of a frame:

  \<^item> a cell is \<^verbatim>\<open>None\<close>, the float \<^verbatim>\<open>nan\<close> (what \<^verbatim>\<open>read_excel\<close> puts in a blank cell),
    a finite number (Python's \<^verbatim>\<open>int\<close> and \<^verbatim>\<open>float\<close> compare by numeric value, so one
    constructor over the rationals covers both; the conversions of integers to
    \<^verbatim>\<open>float64\<close> that pandas makes keep the value up to \<open>2\<^sup>5\<^sup>3\<close>, see \<open>plain_cell\<close> below)
    or a string;
  \<^item> a column label is a string (a spreadsheet header) or an integer (the positional
    labels of the frame built by \<^verbatim>\<open>read_pdf\<close>);
  \<^item> a frame is its list of column labels and its list of rows, in table order. Frames
    are rectangular and their labels are pairwise different, as \<^verbatim>\<open>read_excel\<close> and
    \<^verbatim>\<open>read_pdf\<close> produce them, and a header row holds strings only or integers only;
    the lookups below are those of pandas on such frames.

  A string is a list of bytes; \<^verbatim>\<open>str.lower\<close> is modelled on the ASCII letters.
\<close>

datatype pyval = PyNone | NaN | Num rat | Str string

datatype label = LStr string | LInt int

record dataframe =
  columns :: "label list"
  rows :: "pyval list list"

text \<open>Exceptions that the engine's own statements can raise.\<close>

datatype error = KeyError

text \<open>
  \<^verbatim>\<open>normalize_columns\<close> renames in place (\<^verbatim>\<open>inplace=True\<close>), so frames live in a
  store and the functions receive references.
\<close>

type_synonym ref = nat
type_synonym heap = "ref \<Rightarrow> dataframe"

text \<open>One row of the report: the dictionary appended to \<^verbatim>\<open>discrepancies\<close>, in key order.\<close>

type_synonym entry = "(string \<times> pyval) list"

subsection \<open>Python primitives\<close>

definition lower_char :: "char \<Rightarrow> char" where
  "lower_char c =
     (let n = (of_char c :: nat) in if 65 \<le> n \<and> n \<le> 90 then char_of (n + 32) else c)"

definition lower :: "string \<Rightarrow> string" where
  "lower s = map lower_char s"

definition digit_char :: "nat \<Rightarrow> char" where
  "digit_char d = char_of (48 + d)"

fun str_nat :: "nat \<Rightarrow> string" where
  "str_nat n = (if n < 10 then [digit_char n] else str_nat (n div 10) @ [digit_char (n mod 10)])"

declare str_nat.simps [simp del]

definition str_int :: "int \<Rightarrow> string" where
  "str_int i = (if i < 0 then CHR ''-'' # str_nat (nat (- i)) else str_nat (nat i))"

text \<open>\<^verbatim>\<open>str(c)\<close> for a column label.\<close>

fun py_str :: "label \<Rightarrow> string" where
  "py_str (LStr s) = s"
| "py_str (LInt i) = str_int i"

text \<open>Truth value of a cell, as \<^verbatim>\<open>not po_number\<close> tests it: \<^verbatim>\<open>nan\<close> is true.\<close>

fun truthy :: "pyval \<Rightarrow> bool" where
  "truthy PyNone = False"
| "truthy NaN = True"
| "truthy (Num q) = (q \<noteq> 0)"
| "truthy (Str s) = (s \<noteq> [])"

text \<open>
  \<^verbatim>\<open>a == b\<close> on cells: \<^verbatim>\<open>nan\<close> equals nothing, itself included, and numbers are equal
  when their values are. The code compares what \<^verbatim>\<open>iterrows\<close> and \<^verbatim>\<open>iloc\<close> hand out, so
  this is its comparison where those conversions keep the value (\<open>plain_cell\<close> below).
\<close>

definition py_eq :: "pyval \<Rightarrow> pyval \<Rightarrow> bool" where
  "py_eq a b = (a = b \<and> a \<noteq> NaN)"

subsection \<open>Schema normalisation\<close>

definition COLUMN_MAP :: "(string \<times> string list) list" where
  "COLUMN_MAP =
     [(''po number'', [''po number'', ''po id'', ''po detail'', ''purchase order'']),
      (''invoice number'', [''invoice number'', ''inv no'', ''invoice id'']),
      (''vendor'', [''vendor'', ''supplier'', ''vendor name'', ''supplier name'']),
      (''total amount'', [''total amount'', ''amount'', ''total'']),
      (''quantity'', [''quantity'', ''qty'']),
      (''currency'', [''currency'', ''curr''])]"

text \<open>The inner loop: the first variant found among the lower-cased headers, if any.\<close>

fun first_variant :: "string list \<Rightarrow> string list \<Rightarrow> string option" where
  "first_variant df_cols [] = None"
| "first_variant df_cols (v # vs) =
     (if v \<in> set df_cols then Some v else first_variant df_cols vs)"

text \<open>The outer loop over \<^verbatim>\<open>COLUMN_MAP.items()\<close>, filling the dictionary \<^verbatim>\<open>new_cols\<close>.\<close>

fun build_new_cols ::
  "string list \<Rightarrow> (string \<times> string list) list \<Rightarrow> (string \<rightharpoonup> string) \<Rightarrow> (string \<rightharpoonup> string)" where
  "build_new_cols df_cols [] new_cols = new_cols"
| "build_new_cols df_cols ((std, variants) # rest) new_cols =
     build_new_cols df_cols rest
       (case first_variant df_cols variants of
          None \<Rightarrow> new_cols
        | Some v \<Rightarrow> new_cols(v \<mapsto> std))"

text \<open>
  \<^verbatim>\<open>df.rename(columns=new_cols)\<close> on one label: a label that is a key of the dictionary
  is replaced, any other label is kept. The keys are strings, so an integer label never
  is one.
\<close>

fun rename_label :: "(string \<rightharpoonup> string) \<Rightarrow> label \<Rightarrow> label" where
  "rename_label new_cols (LStr s) = (case new_cols s of None \<Rightarrow> LStr s | Some t \<Rightarrow> LStr t)"
| "rename_label new_cols (LInt i) = LInt i"

definition rename :: "dataframe \<Rightarrow> (string \<rightharpoonup> string) \<Rightarrow> dataframe" where
  "rename df new_cols = df\<lparr>columns := map (rename_label new_cols) (columns df)\<rparr>"

definition new_cols_of :: "dataframe \<Rightarrow> (string \<rightharpoonup> string)" where
  "new_cols_of df =
     (let df_cols = map (\<lambda>c. lower (py_str c)) (columns df)
      in build_new_cols df_cols COLUMN_MAP Map.empty)"

text \<open>
  \<^verbatim>\<open>normalize_columns(df)\<close>: the frame behind the reference is renamed in the store and
  the same reference is returned.
\<close>

definition normalize_columns :: "heap \<Rightarrow> ref \<Rightarrow> heap \<times> ref" where
  "normalize_columns h df = (h(df := rename (h df) (new_cols_of (h df))), df)"

subsection \<open>Matching and field comparison\<close>

text \<open>
  \<^verbatim>\<open>row.get(key)\<close> on a row of a frame with the given labels: the cell under the label,
  \<^verbatim>\<open>None\<close> when no column has it. The cell is returned as the frame holds it; the
  conversion of the row to one array is the identity on the tables of \<open>plain_frame\<close> below.
\<close>

definition row_get :: "label list \<Rightarrow> pyval list \<Rightarrow> string \<Rightarrow> pyval" where
  "row_get cols row key = (case map_of (zip cols row) (LStr key) of None \<Rightarrow> PyNone | Some v \<Rightarrow> v)"

text \<open>\<^verbatim>\<open>df.get(key)\<close>: the column as a list of cells, \<^verbatim>\<open>None\<close> when the frame has no such column.\<close>

definition df_get :: "dataframe \<Rightarrow> string \<Rightarrow> pyval list option" where
  "df_get df key =
     (if LStr key \<in> set (columns df)
      then Some (map (\<lambda>r. row_get (columns df) r key) (rows df))
      else None)"

text \<open>
  \<^verbatim>\<open>invoice_df[invoice_df.get('po number') == po_number]\<close>. With the column present the
  comparison is a boolean mask and the rows where it holds are kept, in order. Without
  it the comparison is \<^verbatim>\<open>None == po_number\<close>, which is \<^verbatim>\<open>False\<close> for the values that
  reach this line, and \<^verbatim>\<open>invoice_df[False]\<close> is a lookup of a column called \<^verbatim>\<open>False\<close>:
  it raises \<^verbatim>\<open>KeyError\<close>.
\<close>

definition matched_rows :: "dataframe \<Rightarrow> pyval \<Rightarrow> error + pyval list list" where
  "matched_rows invoice_df po_number =
     (case df_get invoice_df ''po number'' of
        None \<Rightarrow> Inl KeyError
      | Some col \<Rightarrow>
          Inr (map snd (filter (\<lambda>(c, r). py_eq c po_number) (zip col (rows invoice_df)))))"

text \<open>The loop over the four comparison fields for one matched pair.\<close>

fun compare_fields ::
  "label list \<Rightarrow> pyval list \<Rightarrow> label list \<Rightarrow> pyval list \<Rightarrow> pyval \<Rightarrow> string list \<Rightarrow> entry list" where
  "compare_fields po_cols po_row inv_cols inv_row po_number [] = []"
| "compare_fields po_cols po_row inv_cols inv_row po_number (col # cols) =
     (if \<not> py_eq (row_get po_cols po_row col) (row_get inv_cols inv_row col)
      then [[(''PO Number'', po_number), (''Field'', Str col),
             (''PO Value'', row_get po_cols po_row col),
             (''Invoice Value'', row_get inv_cols inv_row col)]]
      else [])
     @ compare_fields po_cols po_row inv_cols inv_row po_number cols"

definition comparison_fields :: "string list" where
  "comparison_fields = [''total amount'', ''vendor'', ''quantity'', ''currency'']"

text \<open>The body of the loop over the PO rows: the entries one PO row appends.\<close>

definition check_row :: "dataframe \<Rightarrow> label list \<Rightarrow> pyval list \<Rightarrow> error + entry list" where
  "check_row invoice_df po_cols po_row =
     (let po_number = row_get po_cols po_row ''po number''
      in if \<not> truthy po_number then Inr []
         else (case matched_rows invoice_df po_number of
                 Inl e \<Rightarrow> Inl e
               | Inr [] \<Rightarrow> Inr [[(''PO Number'', po_number), (''Issue'', Str ''No matching invoice'')]]
               | Inr (inv_row # _) \<Rightarrow>
                   Inr (compare_fields po_cols po_row (columns invoice_df) inv_row po_number
                          comparison_fields)))"

text \<open>The loop itself: an exception in one row ends the function.\<close>

fun collect :: "dataframe \<Rightarrow> label list \<Rightarrow> pyval list list \<Rightarrow> entry list \<Rightarrow> error + entry list" where
  "collect invoice_df po_cols [] discrepancies = Inr discrepancies"
| "collect invoice_df po_cols (po_row # rest) discrepancies =
     (case check_row invoice_df po_cols po_row of
        Inl e \<Rightarrow> Inl e
      | Inr es \<Rightarrow> collect invoice_df po_cols rest (discrepancies @ es))"

definition sentinel :: entry where
  "sentinel = [(''Message'', Str ''No discrepancies found!'')]"

text \<open>
  \<^verbatim>\<open>find_discrepancies(po_df, invoice_df)\<close>: both frames are normalised in the store,
  the rows of the PO frame are checked in order, and the report is the list of entries,
  or the one-row frame with the message when the list is empty.
\<close>

definition find_discrepancies :: "heap \<Rightarrow> ref \<Rightarrow> ref \<Rightarrow> heap \<times> (error + entry list)" where
  "find_discrepancies h po_df invoice_df =
     (let (h1, po_df) = normalize_columns h po_df;
          (h2, invoice_df) = normalize_columns h1 invoice_df
      in (h2,
          case collect (h2 invoice_df) (columns (h2 po_df)) (rows (h2 po_df)) [] of
            Inl e \<Rightarrow> Inl e
          | Inr discrepancies \<Rightarrow>
              Inr (if discrepancies \<noteq> [] then discrepancies else [sentinel])))"

subsection \<open>Tables on which pandas' row conversions are the identity\<close>





text \<open>The lower-cased headers of a frame, \<^verbatim>\<open>df_cols\<close> in \<^verbatim>\<open>normalize_columns\<close>.\<close>

definition lowered_headers :: "dataframe \<Rightarrow> string list" where
  "lowered_headers df = map (\<lambda>c. lower (py_str c)) (columns df)"

subsection \<open>The comparison the specification asks for\<close>




subsection \<open>Concrete tables\<close>

definition no_frame :: dataframe where
  "no_frame = \<lparr>columns = [], rows = []\<rparr>"

text \<open>A store with the PO frame at reference 0 and the invoice frame at reference 1.\<close>

definition two_frames :: "dataframe \<Rightarrow> dataframe \<Rightarrow> heap" where
  "two_frames po_df invoice_df = (\<lambda>_. no_frame)(0 := po_df, 1 := invoice_df)"

definition canonical_names :: "string list" where
  "canonical_names = map fst COLUMN_MAP"

definition aliases :: "string list" where
  "aliases = concat (map snd COLUMN_MAP)"

text \<open>Scenario A of the specification.\<close>

definition scenario_A_po :: dataframe where
  "scenario_A_po =
     \<lparr>columns = [LStr ''po number'', LStr ''vendor'', LStr ''total amount''],
      rows = [[Str ''PO1'', Str ''Acme'', Num 100]]\<rparr>"

definition scenario_A_invoice :: dataframe where
  "scenario_A_invoice =
     \<lparr>columns = [LStr ''invoice number'', LStr ''po number'', LStr ''vendor'', LStr ''total amount''],
      rows = [[Str ''I1'', Str ''PO1'', Str ''Acme Corp'', Num 100]]\<rparr>"

text \<open>Scenario A with the PO header written \<^verbatim>\<open>PO Number\<close>, as a spreadsheet would have it.\<close>

definition scenario_A_po_capitalised :: dataframe where
  "scenario_A_po_capitalised =
     \<lparr>columns = [LStr ''PO Number'', LStr ''vendor'', LStr ''total amount''],
      rows = [[Str ''PO1'', Str ''Acme'', Num 100]]\<rparr>"

definition scenario_A_po_upper :: dataframe where
  "scenario_A_po_upper =
     \<lparr>columns = [LStr ''PO NUMBER'', LStr ''vendor'', LStr ''total amount''],
      rows = [[Str ''PO1'', Str ''Acme'', Num 100]]\<rparr>"

text \<open>A PO table whose only row has a blank PO number cell, and an invoice table.\<close>

definition blank_po :: dataframe where
  "blank_po =
     \<lparr>columns = [LStr ''po number'', LStr ''vendor''], rows = [[NaN, Str ''Acme'']]\<rparr>"

definition one_invoice :: dataframe where
  "one_invoice =
     \<lparr>columns = [LStr ''po number'', LStr ''vendor''], rows = [[Str ''PO1'', Str ''Acme'']]\<rparr>"

text \<open>An invoice table without any PO number column.\<close>

definition invoice_without_key :: dataframe where
  "invoice_without_key = \<lparr>columns = [LStr ''vendor''], rows = [[Str ''Acme'']]\<rparr>"

definition one_po :: dataframe where
  "one_po = \<lparr>columns = [LStr ''po number'', LStr ''vendor''], rows = [[Str ''PO1'', Str ''Acme'']]\<rparr>"



text \<open>A table that uses an alias and an unrecognised header.\<close>

definition aliased_po :: dataframe where
  "aliased_po =
     \<lparr>columns = [LStr ''po id'', LStr ''notes''], rows = [[Str ''PO1'', Str ''urgent'']]\<rparr>"





section \<open>Properties\<close>

subsection \<open>Renaming touches labels only\<close>

lemma rows_rename [simp]: "rows (rename df nc) = rows df"
  by (simp add: rename_def)

lemma length_columns_rename [simp]: "length (columns (rename df nc)) = length (columns df)"
  by (simp add: rename_def)

lemma first_variant_Some:
  "first_variant df_cols vs = Some v \<Longrightarrow> v \<in> set vs \<and> v \<in> set df_cols"
  by (induction vs) (auto split: if_splits)

text \<open>Every binding of the dictionary comes from the alias table: an alias mapped to its field.\<close>

lemma build_new_cols_Some:
  "build_new_cols df_cols cm nc s = Some t \<Longrightarrow>
   nc s = Some t \<or> (\<exists>vs. (t, vs) \<in> set cm \<and> s \<in> set vs \<and> s \<in> set df_cols)"
proof (induction cm arbitrary: nc)
  case Nil
  then show ?case by simp
next
  case (Cons a cm)
  obtain std variants where a: "a = (std, variants)" by (cases a)
  show ?case
  proof (cases "first_variant df_cols variants")
    case None
    with Cons.prems a have "build_new_cols df_cols cm nc s = Some t" by simp
    from Cons.IH [OF this] show ?thesis by auto
  next
    case (Some v)
    with Cons.prems a have "build_new_cols df_cols cm (nc(v \<mapsto> std)) s = Some t" by simp
    from Cons.IH [OF this] first_variant_Some [OF Some] a show ?thesis
      by (auto split: if_splits)
  qed
qed

lemma new_cols_of_Some:
  assumes "new_cols_of df s = Some t"
  shows "\<exists>vs. (t, vs) \<in> set COLUMN_MAP \<and> s \<in> set vs"
  using build_new_cols_Some [of _ COLUMN_MAP Map.empty s t] assms
  by (auto simp: new_cols_of_def Let_def)

lemma alias_table_check:
  "\<forall>(t, vs) \<in> set COLUMN_MAP. \<forall>s \<in> set vs. s \<in> set canonical_names \<longrightarrow> s = t"
  by code_simp

lemma alias_of_canonical:
  "(t, vs) \<in> set COLUMN_MAP \<Longrightarrow> s \<in> set vs \<Longrightarrow> s \<in> set canonical_names \<Longrightarrow> s = t"
  using alias_table_check by blast

lemma target_canonical: "(t, vs) \<in> set COLUMN_MAP \<Longrightarrow> t \<in> set canonical_names"
  by (force simp: canonical_names_def)

lemma source_alias: "(t, vs) \<in> set COLUMN_MAP \<Longrightarrow> s \<in> set vs \<Longrightarrow> s \<in> set aliases"
  by (force simp: aliases_def)

lemma lower_alias_check: "\<forall>s \<in> set aliases. lower s = s"
  by code_simp

lemma lower_alias: "s \<in> set aliases \<Longrightarrow> lower s = s"
  using lower_alias_check by blast

text \<open>The first variant found is the first element of the list that is among the headers.\<close>

lemma first_variant_iff:
  "first_variant dc vs = Some s \<longleftrightarrow>
   (\<exists>pre post. vs = pre @ s # post \<and> s \<in> set dc \<and> set pre \<inter> set dc = {})"
proof (induction vs)
  case Nil
  then show ?case by simp
next
  case (Cons v vs)
  show ?case
  proof (cases "v \<in> set dc")
    case True
    have "(\<exists>pre post. v # vs = pre @ s # post \<and> s \<in> set dc \<and> set pre \<inter> set dc = {}) \<longleftrightarrow> v = s"
    proof
      assume "\<exists>pre post. v # vs = pre @ s # post \<and> s \<in> set dc \<and> set pre \<inter> set dc = {}"
      then obtain pre post where p: "v # vs = pre @ s # post" "set pre \<inter> set dc = {}" by blast
      show "v = s"
      proof (cases pre)
        case Nil
        with p show ?thesis by simp
      next
        case (Cons a list)
        with p True show ?thesis by auto
      qed
    next
      assume "v = s"
      with True have "v # vs = [] @ s # vs \<and> s \<in> set dc \<and> set [] \<inter> set dc = {}" by simp
      then show "\<exists>pre post. v # vs = pre @ s # post \<and> s \<in> set dc \<and> set pre \<inter> set dc = {}"
        by blast
    qed
    with True show ?thesis by auto
  next
    case False
    have "(\<exists>pre post. v # vs = pre @ s # post \<and> s \<in> set dc \<and> set pre \<inter> set dc = {}) \<longleftrightarrow>
          (\<exists>pre post. vs = pre @ s # post \<and> s \<in> set dc \<and> set pre \<inter> set dc = {})"
    proof
      assume "\<exists>pre post. v # vs = pre @ s # post \<and> s \<in> set dc \<and> set pre \<inter> set dc = {}"
      then obtain pre post where p: "v # vs = pre @ s # post" "s \<in> set dc" "set pre \<inter> set dc = {}"
        by blast
      show "\<exists>pre post. vs = pre @ s # post \<and> s \<in> set dc \<and> set pre \<inter> set dc = {}"
      proof (cases pre)
        case Nil
        with p False show ?thesis by simp
      next
        case (Cons a list)
        with p have "vs = list @ s # post \<and> s \<in> set dc \<and> set list \<inter> set dc = {}" by auto
        then show ?thesis by blast
      qed
    next
      assume "\<exists>pre post. vs = pre @ s # post \<and> s \<in> set dc \<and> set pre \<inter> set dc = {}"
      then obtain pre post where "vs = pre @ s # post" "s \<in> set dc" "set pre \<inter> set dc = {}"
        by blast
      with False have "v # vs = (v # pre) @ s # post \<and> s \<in> set dc \<and> set (v # pre) \<inter> set dc = {}"
        by simp
      then show "\<exists>pre post. v # vs = pre @ s # post \<and> s \<in> set dc \<and> set pre \<inter> set dc = {}"
        by blast
    qed
    with False Cons.IH show ?thesis by simp
  qed
qed

text \<open>
  No alias occurs twice in the table, so the dictionary has exactly the bindings of the
  first variants found: alias to canonical name.
\<close>

lemma build_new_cols_iff:
  assumes "distinct (concat (map snd cm))"
  shows "build_new_cols dc cm nc s = Some t \<longleftrightarrow>
         (\<exists>vs. (t, vs) \<in> set cm \<and> first_variant dc vs = Some s) \<or>
         (nc s = Some t \<and> (\<forall>(std, vs) \<in> set cm. first_variant dc vs \<noteq> Some s))"
  using assms
proof (induction cm arbitrary: nc)
  case Nil
  then show ?case by simp
next
  case (Cons a cm)
  obtain std variants where a: "a = (std, variants)" by (cases a)
  from Cons.prems a have d: "distinct (concat (map snd cm))"
    and i: "set variants \<inter> (\<Union>p \<in> set cm. set (snd p)) = {}"
    by auto
  have rest: "first_variant dc vs \<noteq> Some s" if "s \<in> set variants" "(y, vs) \<in> set cm" for y vs
  proof
    assume "first_variant dc vs = Some s"
    then have "s \<in> set vs" by (simp add: first_variant_Some)
    with that(2) have "s \<in> (\<Union>p \<in> set cm. set (snd p))" by force
    with that(1) i show False by blast
  qed
  show ?case
  proof (cases "first_variant dc variants")
    case None
    with a Cons.IH [OF d, of nc] show ?thesis by auto
  next
    case (Some v)
    show ?thesis
    proof (cases "v = s")
      case True
      with Some first_variant_Some [OF Some] have sv: "s \<in> set variants" by simp
      have none: "\<not> (\<exists>vs. (t, vs) \<in> set cm \<and> first_variant dc vs = Some s)"
        using rest [OF sv] by blast
      have step: "build_new_cols dc (a # cm) nc s = build_new_cols dc cm (nc(s \<mapsto> std)) s"
        using a Some True by simp
      have "build_new_cols dc cm (nc(s \<mapsto> std)) s = Some t \<longleftrightarrow> std = t"
        unfolding Cons.IH [OF d, of "nc(s \<mapsto> std)"] using none rest [OF sv] by auto
      moreover have "(\<exists>vs. (t, vs) \<in> set (a # cm) \<and> first_variant dc vs = Some s) \<longleftrightarrow> std = t"
        using a Some True none by auto
      moreover have "\<not> (\<forall>(std, vs) \<in> set (a # cm). first_variant dc vs \<noteq> Some s)"
        using a Some True by auto
      ultimately show ?thesis unfolding step by blast
    next
      case False
      have step: "build_new_cols dc (a # cm) nc s = build_new_cols dc cm (nc(v \<mapsto> std)) s"
        using a Some by simp
      have "(nc(v \<mapsto> std)) s = nc s"
        using False by simp
      moreover have "(\<exists>vs. (t, vs) \<in> set (a # cm) \<and> first_variant dc vs = Some s) \<longleftrightarrow>
                     (\<exists>vs. (t, vs) \<in> set cm \<and> first_variant dc vs = Some s)"
        using a Some False by auto
      moreover have "(\<forall>(std, vs) \<in> set (a # cm). first_variant dc vs \<noteq> Some s) \<longleftrightarrow>
                     (\<forall>(std, vs) \<in> set cm. first_variant dc vs \<noteq> Some s)"
        using a Some False by auto
      ultimately show ?thesis
        unfolding step Cons.IH [OF d, of "nc(v \<mapsto> std)"] by simp
    qed
  qed
qed

lemma distinct_aliases: "distinct (concat (map snd COLUMN_MAP))"
  by code_simp

lemma new_cols_of_iff:
  "new_cols_of df s = Some t \<longleftrightarrow>
   (\<exists>vs. (t, vs) \<in> set COLUMN_MAP \<and> first_variant (lowered_headers df) vs = Some s)"
  using build_new_cols_iff [OF distinct_aliases, of "lowered_headers df" Map.empty s t]
  by (simp add: new_cols_of_def lowered_headers_def)

text \<open>Which labels \<^verbatim>\<open>rename\<close> replaces, and which it keeps.\<close>

lemma rename_label_renamed:
  assumes "(std, pre @ s # post) \<in> set COLUMN_MAP"
    and "s \<in> set (lowered_headers df)"
    and "set pre \<inter> set (lowered_headers df) = {}"
  shows "rename_label (new_cols_of df) (LStr s) = LStr std"
proof -
  from assms(2,3) have "first_variant (lowered_headers df) (pre @ s # post) = Some s"
    unfolding first_variant_iff by blast
  with assms(1) have "new_cols_of df s = Some std"
    unfolding new_cols_of_iff by blast
  then show ?thesis by simp
qed

lemma rename_label_kept:
  assumes "\<forall>std pre post. (std, pre @ s # post) \<in> set COLUMN_MAP \<longrightarrow>
             s \<notin> set (lowered_headers df) \<or> set pre \<inter> set (lowered_headers df) \<noteq> {}"
  shows "rename_label (new_cols_of df) (LStr s) = LStr s"
proof (cases "new_cols_of df s")
  case None
  then show ?thesis by simp
next
  case (Some t)
  then obtain vs where "(t, vs) \<in> set COLUMN_MAP" "first_variant (lowered_headers df) vs = Some s"
    unfolding new_cols_of_iff by blast
  then obtain pre post where "(t, pre @ s # post) \<in> set COLUMN_MAP"
    "s \<in> set (lowered_headers df)" "set pre \<inter> set (lowered_headers df) = {}"
    unfolding first_variant_iff by blast
  with assms show ?thesis by blast
qed


text \<open>A label is kept, or replaced by a canonical name.\<close>

lemma rename_label_cases:
  "rename_label (new_cols_of df) c = c \<or>
   (\<exists>t \<in> set canonical_names. rename_label (new_cols_of df) c = LStr t)"
proof (cases c)
  case (LStr s)
  show ?thesis
  proof (cases "new_cols_of df s")
    case None
    with LStr show ?thesis by simp
  next
    case (Some t)
    from new_cols_of_Some [OF Some] target_canonical have "t \<in> set canonical_names" by blast
    with LStr Some show ?thesis by simp
  qed
next
  case (LInt i)
  then show ?thesis by simp
qed

text \<open>A label whose lower-cased text is no alias is not a key of the dictionary.\<close>

lemma rename_label_no_alias:
  assumes "lower (py_str c) \<notin> set aliases"
  shows "rename_label (new_cols_of df) c = c"
proof (cases c)
  case (LStr s)
  show ?thesis
  proof (cases "new_cols_of df s")
    case None
    with LStr show ?thesis by simp
  next
    case (Some t)
    from new_cols_of_Some [OF Some] source_alias have "s \<in> set aliases" by blast
    with lower_alias [of s] assms LStr show ?thesis by simp
  qed
next
  case (LInt i)
  then show ?thesis by simp
qed

text \<open>A canonical name is mapped to itself, if at all.\<close>

lemma rename_label_canonical:
  assumes "s \<in> set canonical_names"
  shows "rename_label (new_cols_of df) (LStr s) = LStr s"
proof (cases "new_cols_of df s")
  case None
  then show ?thesis by simp
next
  case (Some t)
  from new_cols_of_Some [OF Some] alias_of_canonical assms have "s = t" by blast
  with Some show ?thesis by simp
qed

subsection \<open>Counting the entries\<close>




text \<open>The report in terms of the loop, with the store after both normalisations.\<close>

lemma find_discrepancies_result:
  "snd (find_discrepancies h po_df invoice_df) =
     (case collect (fst (find_discrepancies h po_df invoice_df) invoice_df)
             (columns (fst (find_discrepancies h po_df invoice_df) po_df)) (rows (h po_df)) [] of
        Inl e \<Rightarrow> Inl e
      | Inr ds \<Rightarrow> Inr (if ds \<noteq> [] then ds else [sentinel]))"
  by (simp add: find_discrepancies_def normalize_columns_def)

text \<open>The mask keeps the rows whose key cell equals the PO number, in table order.\<close>

lemma matched_rows_filter:
  "LStr ''po number'' \<in> set (columns invoice_df) \<Longrightarrow>
   matched_rows invoice_df p =
     Inr (filter (\<lambda>r. py_eq (row_get (columns invoice_df) r ''po number'') p) (rows invoice_df))"
proof -
  have "map snd (filter (\<lambda>(c, r). py_eq c p) (zip (map f rs) rs)) = filter (\<lambda>r. py_eq (f r) p) rs"
    for f :: "pyval list \<Rightarrow> pyval" and rs
    by (induction rs) auto
  then show "LStr ''po number'' \<in> set (columns invoice_df) \<Longrightarrow> ?thesis"
    by (simp add: matched_rows_def df_get_def)
qed

subsection \<open>What one PO row appends\<close>








text \<open>With a key column in the invoice table, no statement of the loop raises.\<close>

lemma collect_returns:
  "LStr ''po number'' \<in> set (columns invoice_df) \<Longrightarrow> \<exists>ds. collect invoice_df po_cols rs acc = Inr ds"
proof (induction rs arbitrary: acc)
  case Nil
  then show ?case by simp
next
  case (Cons r rs)
  from Cons.prems have "\<exists>es. check_row invoice_df po_cols r = Inr es"
    by (simp add: check_row_def Let_def matched_rows_filter split: list.splits)
  with Cons show ?case by auto
qed

text \<open>Hence \<^verbatim>\<open>find_discrepancies\<close> returns a report whenever the normalised invoice table has a key column.\<close>

lemma find_discrepancies_returns:
  assumes "LStr ''po number'' \<in> set (columns (fst (find_discrepancies h po_df invoice_df) invoice_df))"
  shows "\<exists>report. snd (find_discrepancies h po_df invoice_df) = Inr report"
proof -
  from collect_returns [OF assms] obtain ds where
    "collect (fst (find_discrepancies h po_df invoice_df) invoice_df)
       (columns (fst (find_discrepancies h po_df invoice_df) po_df)) (rows (h po_df)) [] = Inr ds"
    by blast
  then show ?thesis
    unfolding find_discrepancies_result [of h po_df invoice_df] by simp
qed

section \<open>The properties of the specification, checked\<close>

text \<open>
  C1. Whenever \<^verbatim>\<open>find_discrepancies\<close> returns a report, the report has at least one row:
  if the loop appended no entry, the report is exactly the one row with the message
  \<^verbatim>\<open>No discrepancies found!\<close>, and otherwise it is the list of appended entries.
\<close>

theorem report_never_empty:
  assumes "snd (find_discrepancies h po_df invoice_df) = Inr report"
  shows "report \<noteq> [] \<and>
         (\<exists>ds. collect (fst (find_discrepancies h po_df invoice_df) invoice_df)
                 (columns (fst (find_discrepancies h po_df invoice_df) po_df))
                 (rows (h po_df)) [] = Inr ds \<and>
               (ds = [] \<longrightarrow> report = [[(''Message'', Str ''No discrepancies found!'')]]) \<and>
               (ds \<noteq> [] \<longrightarrow> report = ds))"
  using assms unfolding find_discrepancies_result [of h po_df invoice_df]
  by (auto simp: sentinel_def split: sum.splits if_splits)

theorem report_never_empty_witness:
  "snd (find_discrepancies (two_frames one_po one_invoice) 0 1) =
     Inr [[(''Message'', Str ''No discrepancies found!'')]] \<and>
   [[(''Message'', Str ''No discrepancies found!'')]] \<noteq> ([] :: entry list)"
proof -
  have r: "snd (find_discrepancies (two_frames one_po one_invoice) 0 1) =
             Inr [[(''Message'', Str ''No discrepancies found!'')]]"
    by code_simp
  from report_never_empty [OF r] r show ?thesis by blast
qed

text \<open>
  C2. Evaluation at the header \<^verbatim>\<open>PO Number\<close>: its lower-cased form is a recognised alias,
  yet the column keeps its label, the key lookup on the row gives \<^verbatim>\<open>None\<close>, and
  Scenario A with that header reports no discrepancy although the vendors differ. The
  same happens with the header \<^verbatim>\<open>PO NUMBER\<close>.
\<close>

theorem capitalised_header_not_resolved:
  "lower ''PO Number'' \<in> set aliases \<and>
   columns (fst (normalize_columns (two_frames scenario_A_po_capitalised scenario_A_invoice) 0) 0) =
     [LStr ''PO Number'', LStr ''vendor'', LStr ''total amount''] \<and>
   row_get [LStr ''PO Number'', LStr ''vendor'', LStr ''total amount'']
     [Str ''PO1'', Str ''Acme'', Num 100] ''po number'' = PyNone \<and>
   snd (find_discrepancies (two_frames scenario_A_po_capitalised scenario_A_invoice) 0 1) =
     Inr [[(''Message'', Str ''No discrepancies found!'')]] \<and>
   lower ''PO NUMBER'' \<in> set aliases \<and>
   columns (fst (normalize_columns (two_frames scenario_A_po_upper scenario_A_invoice) 0) 0) =
     [LStr ''PO NUMBER'', LStr ''vendor'', LStr ''total amount''] \<and>
   snd (find_discrepancies (two_frames scenario_A_po_upper scenario_A_invoice) 0 1) =
     Inr [[(''Message'', Str ''No discrepancies found!'')]]"
  by code_simp

text \<open>
  C3. Evaluation at a PO row whose PO number cell is blank (\<^verbatim>\<open>nan\<close>): the row is not
  skipped, it is reported as having no matching invoice.
\<close>

theorem blank_po_number_reported:
  "snd (find_discrepancies (two_frames blank_po one_invoice) 0 1) =
     Inr [[(''PO Number'', NaN), (''Issue'', Str ''No matching invoice'')]]"
  by code_simp





text \<open>
  C5. Evaluation at an invoice table without a PO number column: the selection of the
  matching rows raises \<^verbatim>\<open>KeyError\<close> and no report is produced.
\<close>

theorem missing_invoice_key_raises:
  "snd (find_discrepancies (two_frames one_po invoice_without_key) 0 1) = Inl KeyError"
  by code_simp

text \<open>
  C6, as the source has it. \<^verbatim>\<open>normalize_columns\<close> works in place on the caller's frame
  and returns the same reference. A string label is replaced by a canonical name exactly
  when the label, as written, is the first alias in that name's alias list that occurs
  among the lower-cased headers of the frame; every other label is kept. The rows of the
  frame, the number of its columns and every other frame of the store are as before.
\<close>

theorem normalize_columns_in_place:
  "snd (normalize_columns h df) = df \<and>
   (\<forall>other. other \<noteq> df \<longrightarrow> fst (normalize_columns h df) other = h other) \<and>
   rows (fst (normalize_columns h df) df) = rows (h df) \<and>
   length (columns (fst (normalize_columns h df) df)) = length (columns (h df)) \<and>
   (\<forall>j < length (columns (h df)).
      (\<forall>i. columns (h df) ! j = LInt i \<longrightarrow> columns (fst (normalize_columns h df) df) ! j = LInt i) \<and>
      (\<forall>s. columns (h df) ! j = LStr s \<longrightarrow>
         (\<forall>std pre post.
            (std, pre @ s # post) \<in> set COLUMN_MAP \<and>
            s \<in> set (lowered_headers (h df)) \<and>
            set pre \<inter> set (lowered_headers (h df)) = {} \<longrightarrow>
            columns (fst (normalize_columns h df) df) ! j = LStr std) \<and>
         ((\<forall>std pre post.
             (std, pre @ s # post) \<in> set COLUMN_MAP \<longrightarrow>
             s \<notin> set (lowered_headers (h df)) \<or> set pre \<inter> set (lowered_headers (h df)) \<noteq> {}) \<longrightarrow>
          columns (fst (normalize_columns h df) df) ! j = LStr s)))"
proof -
  have c: "columns (fst (normalize_columns h df) df) ! j =
           rename_label (new_cols_of (h df)) (columns (h df) ! j)"
    if "j < length (columns (h df))" for j
    using that by (simp add: normalize_columns_def rename_def)
  have "snd (normalize_columns h df) = df"
    and "\<forall>other. other \<noteq> df \<longrightarrow> fst (normalize_columns h df) other = h other"
    and "rows (fst (normalize_columns h df) df) = rows (h df)"
    and "length (columns (fst (normalize_columns h df) df)) = length (columns (h df))"
    by (simp_all add: normalize_columns_def)
  moreover have "\<forall>j < length (columns (h df)).
      (\<forall>i. columns (h df) ! j = LInt i \<longrightarrow> columns (fst (normalize_columns h df) df) ! j = LInt i) \<and>
      (\<forall>s. columns (h df) ! j = LStr s \<longrightarrow>
         (\<forall>std pre post.
            (std, pre @ s # post) \<in> set COLUMN_MAP \<and>
            s \<in> set (lowered_headers (h df)) \<and>
            set pre \<inter> set (lowered_headers (h df)) = {} \<longrightarrow>
            columns (fst (normalize_columns h df) df) ! j = LStr std) \<and>
         ((\<forall>std pre post.
             (std, pre @ s # post) \<in> set COLUMN_MAP \<longrightarrow>
             s \<notin> set (lowered_headers (h df)) \<or> set pre \<inter> set (lowered_headers (h df)) \<noteq> {}) \<longrightarrow>
          columns (fst (normalize_columns h df) df) ! j = LStr s))"
  proof (intro allI impI conjI)
    fix j i assume "j < length (columns (h df))" "columns (h df) ! j = LInt i"
    then show "columns (fst (normalize_columns h df) df) ! j = LInt i" by (simp add: c)
  next
    fix j s std pre post
    assume j: "j < length (columns (h df))" "columns (h df) ! j = LStr s"
      and a: "(std, pre @ s # post) \<in> set COLUMN_MAP \<and>
              s \<in> set (lowered_headers (h df)) \<and> set pre \<inter> set (lowered_headers (h df)) = {}"
    from a have "rename_label (new_cols_of (h df)) (LStr s) = LStr std"
      using rename_label_renamed by blast
    with j show "columns (fst (normalize_columns h df) df) ! j = LStr std" by (simp add: c)
  next
    fix j s
    assume j: "j < length (columns (h df))" "columns (h df) ! j = LStr s"
      and a: "\<forall>std pre post. (std, pre @ s # post) \<in> set COLUMN_MAP \<longrightarrow>
                s \<notin> set (lowered_headers (h df)) \<or> set pre \<inter> set (lowered_headers (h df)) \<noteq> {}"
    from a have "rename_label (new_cols_of (h df)) (LStr s) = LStr s"
      by (rule rename_label_kept)
    with j show "columns (fst (normalize_columns h df) df) ! j = LStr s" by (simp add: c)
  qed
  ultimately show ?thesis by blast
qed

theorem normalize_columns_in_place_witness:
  "snd (normalize_columns (two_frames aliased_po one_invoice) 0) = 0 \<and>
   (1 :: ref) \<noteq> 0 \<and>
   fst (normalize_columns (two_frames aliased_po one_invoice) 0) 1 = two_frames aliased_po one_invoice 1 \<and>
   rows (fst (normalize_columns (two_frames aliased_po one_invoice) 0) 0) =
     rows (two_frames aliased_po one_invoice 0) \<and>
   columns (two_frames aliased_po one_invoice 0) = [LStr ''po id'', LStr ''notes''] \<and>
   (''po number'', [''po number''] @ ''po id'' # [''po detail'', ''purchase order'']) \<in> set COLUMN_MAP \<and>
   ''po id'' \<in> set (lowered_headers (two_frames aliased_po one_invoice 0)) \<and>
   set [''po number''] \<inter> set (lowered_headers (two_frames aliased_po one_invoice 0)) = {} \<and>
   columns (fst (normalize_columns (two_frames aliased_po one_invoice) 0) 0) ! 0 = LStr ''po number'' \<and>
   ''notes'' \<notin> set aliases \<and>
   columns (fst (normalize_columns (two_frames aliased_po one_invoice) 0) 0) ! 1 = LStr ''notes''"
proof -
  let ?h = "two_frames aliased_po one_invoice"
  note t = normalize_columns_in_place [of ?h 0]
  have n: "(1 :: ref) \<noteq> 0" by simp
  have cs: "columns (?h 0) = [LStr ''po id'', LStr ''notes'']"
    by (simp add: two_frames_def aliased_po_def)
  have m: "(''po number'', [''po number''] @ ''po id'' # [''po detail'', ''purchase order'']) \<in> set COLUMN_MAP"
    by (simp add: COLUMN_MAP_def)
  have l: "''po id'' \<in> set (lowered_headers (?h 0))"
    by code_simp
  have e: "set [''po number''] \<inter> set (lowered_headers (?h 0)) = {}"
    by code_simp
  have na: "''notes'' \<notin> set aliases"
    by code_simp
  have j0: "0 < length (columns (?h 0))" "columns (?h 0) ! 0 = LStr ''po id''"
    and j1: "1 < length (columns (?h 0))" "columns (?h 0) ! 1 = LStr ''notes''"
    by (simp_all add: cs)
  note labels = t [THEN conjunct2, THEN conjunct2, THEN conjunct2, THEN conjunct2, rule_format]
  note renamed = labels [THEN conjunct2, rule_format, THEN conjunct1, rule_format]
  note kept = labels [THEN conjunct2, rule_format, THEN conjunct2, rule_format]
  from renamed [OF j0(1) j0(2)] m l e
  have r0: "columns (fst (normalize_columns ?h 0) 0) ! 0 = LStr ''po number''"
    by blast
  have "(std, pre @ ''notes'' # post) \<notin> set COLUMN_MAP" for std pre post
    using na source_alias [of std "pre @ ''notes'' # post" "''notes''"] by auto
  with kept [OF j1(1) j1(2)]
  have r1: "columns (fst (normalize_columns ?h 0) 0) ! 1 = LStr ''notes''"
    by blast
  from t [THEN conjunct1] t [THEN conjunct2, THEN conjunct1, rule_format, OF n]
    t [THEN conjunct2, THEN conjunct2, THEN conjunct1] n cs m l e r0 na r1
  show ?thesis by simp
qed

text \<open>
  C6 as stated fails: after normalising the table with the header \<^verbatim>\<open>po id\<close>, the frame
  the caller holds has the header \<^verbatim>\<open>po number\<close>.
\<close>

theorem caller_frame_changed:
  "columns (two_frames aliased_po one_invoice 0) = [LStr ''po id'', LStr ''notes''] \<and>
   columns (fst (normalize_columns (two_frames aliased_po one_invoice) 0) 0) =
     [LStr ''po number'', LStr ''notes''] \<and>
   fst (normalize_columns (two_frames aliased_po one_invoice) 0) 0 \<noteq> two_frames aliased_po one_invoice 0"
proof -
  have a: "columns (two_frames aliased_po one_invoice 0) = [LStr ''po id'', LStr ''notes'']"
    by code_simp
  have b: "columns (fst (normalize_columns (two_frames aliased_po one_invoice) 0) 0) =
     [LStr ''po number'', LStr ''notes'']"
    by code_simp
  from a b have "columns (fst (normalize_columns (two_frames aliased_po one_invoice) 0) 0) \<noteq>
     columns (two_frames aliased_po one_invoice 0)"
    by simp
  then have "fst (normalize_columns (two_frames aliased_po one_invoice) 0) 0 \<noteq>
     two_frames aliased_po one_invoice 0"
    by auto
  with a b show ?thesis by blast
qed

text \<open>
  C7. Scenario A: the report is exactly one entry, for the field \<^verbatim>\<open>vendor\<close> of \<^verbatim>\<open>PO1\<close>,
  with the PO value \<^verbatim>\<open>Acme\<close> and the invoice value \<^verbatim>\<open>Acme Corp\<close>.
\<close>

theorem scenario_A:
  "snd (find_discrepancies (two_frames scenario_A_po scenario_A_invoice) 0 1) =
     Inr [[(''PO Number'', Str ''PO1''), (''Field'', Str ''vendor''),
           (''PO Value'', Str ''Acme''), (''Invoice Value'', Str ''Acme Corp'')]]"
  by code_simp

text \<open>
  C8. A table all of whose headers are canonical field names is left as it is by
  \<^verbatim>\<open>normalize_columns\<close>: same rows, same cells, and the same headers as well.
\<close>

theorem canonical_headers_unchanged:
  assumes "set (columns (h df)) \<subseteq> LStr ` set canonical_names"
  shows "rows (fst (normalize_columns h df) df) = rows (h df) \<and>
         columns (fst (normalize_columns h df) df) = columns (h df)"
proof -
  have "map (rename_label (new_cols_of (h df))) (columns (h df)) = columns (h df)"
  proof (rule map_idI)
    fix c assume "c \<in> set (columns (h df))"
    with assms obtain s where "c = LStr s" "s \<in> set canonical_names" by auto
    then show "rename_label (new_cols_of (h df)) c = c"
      using rename_label_canonical by simp
  qed
  then show ?thesis by (simp add: normalize_columns_def rename_def)
qed

theorem canonical_headers_unchanged_witness:
  "set (columns (two_frames scenario_A_po scenario_A_invoice 0)) \<subseteq> LStr ` set canonical_names \<and>
   rows (fst (normalize_columns (two_frames scenario_A_po scenario_A_invoice) 0) 0) =
     [[Str ''PO1'', Str ''Acme'', Num 100]] \<and>
   columns (fst (normalize_columns (two_frames scenario_A_po scenario_A_invoice) 0) 0) =
     [LStr ''po number'', LStr ''vendor'', LStr ''total amount'']"
proof -
  have a: "set (columns (two_frames scenario_A_po scenario_A_invoice 0)) \<subseteq> LStr ` set canonical_names"
    by (simp add: two_frames_def scenario_A_po_def canonical_names_def COLUMN_MAP_def)
  have r: "rows (two_frames scenario_A_po scenario_A_invoice 0) = [[Str ''PO1'', Str ''Acme'', Num 100]]"
    by (simp add: two_frames_def scenario_A_po_def)
  have c: "columns (two_frames scenario_A_po scenario_A_invoice 0) =
     [LStr ''po number'', LStr ''vendor'', LStr ''total amount'']"
    by (simp add: two_frames_def scenario_A_po_def)
  from canonical_headers_unchanged [of "two_frames scenario_A_po scenario_A_invoice" 0, OF a] a r c
  show ?thesis by simp
qed



text \<open>
  C10. \<^verbatim>\<open>normalize_columns\<close> leaves the rows of the table as they are (their number,
  their order and every cell) and keeps every column: the table has as many columns as
  before, so each cell is still under the column at its position, and a column whose
  header matches no alias keeps its label as well.
\<close>

theorem normalize_keeps_cells:
  "rows (fst (normalize_columns h df) df) = rows (h df) \<and>
   length (columns (fst (normalize_columns h df) df)) = length (columns (h df)) \<and>
   (\<forall>j < length (columns (h df)).
      lower (py_str (columns (h df) ! j)) \<notin> set aliases \<longrightarrow>
      columns (fst (normalize_columns h df) df) ! j = columns (h df) ! j)"
  using rename_label_no_alias [of _ "h df"]
  by (simp add: normalize_columns_def rename_def)

theorem normalize_keeps_cells_witness:
  "rows (fst (normalize_columns (two_frames aliased_po one_invoice) 0) 0) =
     rows (two_frames aliased_po one_invoice 0) \<and>
   (1 :: nat) < length (columns (two_frames aliased_po one_invoice 0)) \<and>
   lower (py_str (columns (two_frames aliased_po one_invoice 0) ! 1)) \<notin> set aliases \<and>
   columns (fst (normalize_columns (two_frames aliased_po one_invoice) 0) 0) ! 1 =
     columns (two_frames aliased_po one_invoice 0) ! 1"
proof -
  have l: "(1 :: nat) < length (columns (two_frames aliased_po one_invoice 0))"
    by (simp add: two_frames_def aliased_po_def)
  have n: "lower (py_str (columns (two_frames aliased_po one_invoice 0) ! 1)) \<notin> set aliases"
    by code_simp
  from normalize_keeps_cells [of "two_frames aliased_po one_invoice" 0] l n
  show ?thesis by blast
qed

end
